theory Spec2Isabelle
  imports Main "HOL-Library.Word" "HOL-Library.Sublist"
begin

section \<open>JavaScript strings\<close>

text \<open>
  A JavaScript string is a sequence of UTF-16 code units. Every string operation the
  parser uses (\<^verbatim>\<open>split\<close>, \<^verbatim>\<open>trim\<close>, \<^verbatim>\<open>includes\<close>, \<^verbatim>\<open>startsWith\<close>, \<^verbatim>\<open>substring\<close>,
  \<^verbatim>\<open>replace\<close> with a regular expression without the \<^verbatim>\<open>u\<close> flag, \<^verbatim>\<open>parseInt\<close>) works on
  code units, so an emoji outside the basic plane is its surrogate pair.
\<close>

type_synonym jschar = "16 word"
type_synonym jsstring = "jschar list"

definition js :: "string \<Rightarrow> jsstring" where
  \<comment> \<open>an ASCII literal as code units\<close>
  "js s = map of_char s"

definition isLineTerminator :: "jschar \<Rightarrow> bool" where
  \<comment> \<open>ECMAScript LineTerminator: LF, CR, LS, PS\<close>
  "isLineTerminator c \<longleftrightarrow> c = 0x0A \<or> c = 0x0D \<or> c = 0x2028 \<or> c = 0x2029"

definition isWhiteSpace :: "jschar \<Rightarrow> bool" where
  \<comment> \<open>what \<^verbatim>\<open>trim\<close>, \<^verbatim>\<open>\s\<close> and \<^verbatim>\<open>parseInt\<close> skip: WhiteSpace and LineTerminator\<close>
  "isWhiteSpace c \<longleftrightarrow>
     c = 0x09 \<or> c = 0x0B \<or> c = 0x0C \<or> c = 0x20 \<or> c = 0xA0 \<or> c = 0x1680 \<or>
     (0x2000 \<le> c \<and> c \<le> 0x200A) \<or> c = 0x202F \<or> c = 0x205F \<or> c = 0x3000 \<or>
     c = 0xFEFF \<or> isLineTerminator c"

definition trim :: "jsstring \<Rightarrow> jsstring" where
  "trim s = rev (dropWhile isWhiteSpace (rev (dropWhile isWhiteSpace s)))"

definition startsWith :: "jsstring \<Rightarrow> jsstring \<Rightarrow> bool" where
  "startsWith s m \<longleftrightarrow> take (length m) s = m"

fun str_includes :: "jsstring \<Rightarrow> jsstring \<Rightarrow> bool" where
  "str_includes [] m = (m = [])"
| "str_includes (c # cs) m = (startsWith (c # cs) m \<or> str_includes cs m)"

definition substring :: "nat \<Rightarrow> jsstring \<Rightarrow> jsstring" where
  \<comment> \<open>\<^verbatim>\<open>s.substring(n)\<close>\<close>
  "substring n s = drop n s"

fun split :: "jschar \<Rightarrow> jsstring \<Rightarrow> jsstring list" where
  \<comment> \<open>\<^verbatim>\<open>s.split(sep)\<close> for a separator of one code unit; the empty string gives one empty part\<close>
  "split sep [] = [[]]"
| "split sep (c # cs) =
     (if c = sep then [] # split sep cs
      else (case split sep cs of [] \<Rightarrow> [[c]] | p # ps \<Rightarrow> (c # p) # ps))"

subsection \<open>The regular expression of the header lines\<close>

text \<open>
  \<^verbatim>\<open>s.replace(/.*?MARKER:?\s*/, '')\<close> removes the leftmost match. At a start position the
  lazy \<^verbatim>\<open>.*?\<close> tries the marker first and otherwise consumes one code unit that is not a
  line terminator; after the marker an optional colon and all following white space are
  consumed. \<open>match_here\<close> returns what is left of the string after a match anchored at its
  start, \<open>replace_marker\<close> moves the start position to the right until a match exists and
  returns the string unchanged when there is none.
\<close>

definition after_marker :: "jsstring \<Rightarrow> jsstring \<Rightarrow> jsstring" where
  "after_marker m s =
     (let r = drop (length m) s;
          r' = (case r of [] \<Rightarrow> [] | c # cs \<Rightarrow> if c = 0x3A then cs else r)
      in dropWhile isWhiteSpace r')"

fun match_here :: "jsstring \<Rightarrow> jsstring \<Rightarrow> jsstring option" where
  "match_here m [] = (if m = [] then Some (after_marker m []) else None)"
| "match_here m (c # cs) =
     (if startsWith (c # cs) m then Some (after_marker m (c # cs))
      else if isLineTerminator c then None
      else match_here m cs)"

fun replace_marker :: "jsstring \<Rightarrow> jsstring \<Rightarrow> jsstring" where
  "replace_marker m [] = (case match_here m [] of Some r \<Rightarrow> r | None \<Rightarrow> [])"
| "replace_marker m (c # cs) =
     (case match_here m (c # cs) of Some r \<Rightarrow> r | None \<Rightarrow> c # replace_marker m cs)"

subsection \<open>parseInt\<close>

text \<open>
  \<^verbatim>\<open>parseInt(s)\<close> without a radix: leading white space is skipped, then an optional sign,
  then \<^verbatim>\<open>0x\<close> or \<^verbatim>\<open>0X\<close> selects radix 16, then the longest run of digits is read; no digit
  gives \<^verbatim>\<open>NaN\<close> (here \<open>None\<close>). The result is the mathematical integer read; the
  JavaScript Number is that integer up to \<open>2 ^ 53\<close> in magnitude and the nearest double
  beyond, which is zero, non-zero or \<^verbatim>\<open>NaN\<close> exactly when the integer is.
\<close>

definition digit_val :: "nat \<Rightarrow> jschar \<Rightarrow> nat option" where
  "digit_val radix c =
     (let v = (if 0x30 \<le> c \<and> c \<le> 0x39 then Some (unat c - 0x30)
               else if 0x61 \<le> c \<and> c \<le> 0x7A then Some (unat c - 0x61 + 10)
               else if 0x41 \<le> c \<and> c \<le> 0x5A then Some (unat c - 0x41 + 10)
               else None)
      in case v of None \<Rightarrow> None | Some d \<Rightarrow> if d < radix then Some d else None)"

definition parseInt :: "jsstring \<Rightarrow> int option" where
  "parseInt inputString =
     (let s = dropWhile isWhiteSpace inputString;
          neg = (s \<noteq> [] \<and> hd s = 0x2D);
          s1 = (if s \<noteq> [] \<and> (hd s = 0x2B \<or> hd s = 0x2D) then tl s else s);
          hex = (startsWith s1 [0x30, 0x78] \<or> startsWith s1 [0x30, 0x58]);
          radix = (if hex then 16 else 10);
          s2 = (if hex then drop 2 s1 else s1);
          z = takeWhile (\<lambda>c. digit_val radix c \<noteq> None) s2
      in if z = [] then None
         else let n = foldl (\<lambda>a c. a * radix + the (digit_val radix c)) 0 z
              in Some (if neg then - int n else int n))"

definition num_or :: "int option \<Rightarrow> int \<Rightarrow> int" where
  \<comment> \<open>\<^verbatim>\<open>x || d\<close> on a number: \<^verbatim>\<open>NaN\<close> and zero are falsy\<close>
  "num_or x d = (case x of None \<Rightarrow> d | Some v \<Rightarrow> if v = 0 then d else v)"

section \<open>The data model (types.ts)\<close>

record FailureSimulation =
  scenario :: jsstring
  trigger :: jsstring
  behavior :: jsstring

record ValueMetrics =
  timeSavedMinutes :: int
  linesProduced :: int
  potentialErrorsMitigated :: int

record ScriptResponse =
  summary :: jsstring
  assumptions :: "jsstring list"
  script :: jsstring
  tests :: jsstring
  dockerfile :: jsstring
  cicd :: jsstring
  failureSimulations :: "FailureSimulation list"
  metrics :: ValueMetrics
  usage :: jsstring

section \<open>parseModelResponse (groqService.ts)\<close>

definition m_summary :: jsstring where
  "m_summary = [0xD83E, 0xDDE0] @ js '' Summary''"
definition m_assumptions :: jsstring where
  "m_assumptions = [0x2699, 0xFE0F] @ js '' Assumptions''"
definition m_script :: jsstring where
  "m_script = [0xD83D, 0xDCDC] @ js '' Script''"
definition m_tests :: jsstring where
  "m_tests = [0xD83E, 0xDDEA] @ js '' Tests''"
definition m_dockerfile :: jsstring where
  "m_dockerfile = [0xD83D, 0xDC33] @ js '' Dockerfile''"
definition m_cicd :: jsstring where
  "m_cicd = [0xD83D, 0xDE80] @ js '' CI/CD''"
definition m_failures :: jsstring where
  "m_failures = [0x2622, 0xFE0F] @ js '' Failure Simulations''"
definition m_metrics :: jsstring where
  "m_metrics = [0xD83D, 0xDCCA] @ js '' Metrics''"
definition m_usage :: jsstring where
  "m_usage = [0x25B6, 0xFE0F] @ js '' Usage''"

datatype section_tag = Summary | Assumptions | Script | Tests | Dockerfile | Cicd | Failures | Usage

record parser_state =
  sections :: ScriptResponse
  currentSection :: "section_tag option"
  inCodeBlock :: bool

definition initial_sections :: ScriptResponse where
  "initial_sections =
     \<lparr>summary = [], assumptions = [], script = [], tests = [], dockerfile = [], cicd = [],
      failureSimulations = [],
      metrics = \<lparr>timeSavedMinutes = 0, linesProduced = 0, potentialErrorsMitigated = 0\<rparr>,
      usage = []\<rparr>"

definition initial_state :: parser_state where
  "initial_state = \<lparr>sections = initial_sections, currentSection = None, inCodeBlock = False\<rparr>"

definition pipe_parts :: "jsstring \<Rightarrow> jsstring list" where
  \<comment> \<open>\<^verbatim>\<open>s.split('|').map(p => p.trim())\<close>\<close>
  "pipe_parts s = map trim (split 0x7C s)"

definition join_space :: "jsstring \<Rightarrow> jsstring \<Rightarrow> jsstring" where
  \<comment> \<open>\<^verbatim>\<open>acc += (acc ? ' ' : '') + t\<close>\<close>
  "join_space acc t = acc @ (if acc \<noteq> [] then [0x20] else []) @ t"

definition step :: "parser_state \<Rightarrow> jsstring \<Rightarrow> parser_state" where
  \<comment> \<open>the body of \<^verbatim>\<open>lines.forEach\<close>\<close>
  "step st line =
     (let trimmed = trim line; sec = sections st; cur = currentSection st in
      if str_includes trimmed m_summary then
        st\<lparr>currentSection := Some Summary,
           sections := sec\<lparr>summary := trim (replace_marker m_summary trimmed)\<rparr>\<rparr>
      else if str_includes trimmed m_assumptions then
        st\<lparr>currentSection := Some Assumptions\<rparr>
      else if str_includes trimmed m_script then
        st\<lparr>currentSection := Some Script, inCodeBlock := False\<rparr>
      else if str_includes trimmed m_tests then
        st\<lparr>currentSection := Some Tests, inCodeBlock := False\<rparr>
      else if str_includes trimmed m_dockerfile then
        st\<lparr>currentSection := Some Dockerfile, inCodeBlock := False\<rparr>
      else if str_includes trimmed m_cicd then
        st\<lparr>currentSection := Some Cicd, inCodeBlock := False\<rparr>
      else if str_includes trimmed m_failures then
        st\<lparr>currentSection := Some Failures\<rparr>
      else if str_includes trimmed m_metrics then
        (let parts = pipe_parts trimmed in
         if length parts \<ge> 4 then
           st\<lparr>sections := sec\<lparr>metrics :=
                \<lparr>timeSavedMinutes = num_or (parseInt (parts ! 1)) 30,
                 linesProduced = num_or (parseInt (parts ! 2)) 0,
                 potentialErrorsMitigated = num_or (parseInt (parts ! 3)) 5\<rparr>\<rparr>\<rparr>
         else st)
      else if str_includes trimmed m_usage then
        st\<lparr>currentSection := Some Usage,
           sections := sec\<lparr>usage := trim (replace_marker m_usage trimmed)\<rparr>\<rparr>
      else if cur = Some Summary \<and> trimmed \<noteq> [] then
        (if \<not> str_includes (summary sec) trimmed then
           st\<lparr>sections := sec\<lparr>summary := join_space (summary sec) trimmed\<rparr>\<rparr>
         else st)
      else if cur = Some Assumptions \<and> startsWith trimmed [0x2D] then
        st\<lparr>sections := sec\<lparr>assumptions := assumptions sec @ [trim (substring 1 trimmed)]\<rparr>\<rparr>
      else if cur = Some Failures \<and> startsWith trimmed [0x2D] then
        (let parts = pipe_parts (substring 1 trimmed) in
         if length parts \<ge> 3 then
           st\<lparr>sections := sec\<lparr>failureSimulations := failureSimulations sec @
                [\<lparr>scenario = parts ! 0, trigger = parts ! 1, behavior = parts ! 2\<rparr>]\<rparr>\<rparr>
         else st)
      else if cur \<in> {Some Script, Some Tests, Some Dockerfile, Some Cicd} then
        (if startsWith trimmed [0x60, 0x60, 0x60] then
           st\<lparr>inCodeBlock := \<not> inCodeBlock st\<rparr>
         else if cur = Some Script then
           st\<lparr>sections := sec\<lparr>script := script sec @ line @ [0x0A]\<rparr>\<rparr>
         else if cur = Some Tests then
           st\<lparr>sections := sec\<lparr>tests := tests sec @ line @ [0x0A]\<rparr>\<rparr>
         else if cur = Some Dockerfile then
           st\<lparr>sections := sec\<lparr>dockerfile := dockerfile sec @ line @ [0x0A]\<rparr>\<rparr>
         else
           st\<lparr>sections := sec\<lparr>cicd := cicd sec @ line @ [0x0A]\<rparr>\<rparr>)
      else if cur = Some Usage \<and> trimmed \<noteq> [] \<and> \<not> str_includes trimmed m_usage then
        st\<lparr>sections := sec\<lparr>usage := join_space (usage sec) trimmed\<rparr>\<rparr>
      else st)"

definition run_lines :: "jsstring \<Rightarrow> parser_state" where
  \<comment> \<open>the state after \<^verbatim>\<open>text.split('\n').forEach(...)\<close>\<close>
  "run_lines text = foldl step initial_state (split 0x0A text)"

definition finish :: "ScriptResponse \<Rightarrow> ScriptResponse" where
  \<comment> \<open>the normalisation after the pass\<close>
  "finish sec =
     (let sec1 = sec\<lparr>script := trim (script sec)\<rparr>;
          sec2 = sec1\<lparr>tests := trim (tests sec1)\<rparr>;
          sec3 = sec2\<lparr>dockerfile := trim (dockerfile sec2)\<rparr>;
          sec4 = sec3\<lparr>cicd := trim (cicd sec3)\<rparr>
      in if tests sec4 = js ''N/A'' then sec4\<lparr>tests := []\<rparr> else sec4)"

definition parseModelResponse :: "jsstring \<Rightarrow> ScriptResponse" where
  "parseModelResponse text = finish (sections (run_lines text))"

definition before_metrics :: "jsstring \<Rightarrow> bool" where
  \<comment> \<open>one of the seven markers that the chain tests before the metrics marker\<close>
  "before_metrics t \<longleftrightarrow>
     str_includes t m_summary \<or> str_includes t m_assumptions \<or> str_includes t m_script \<or>
     str_includes t m_tests \<or> str_includes t m_dockerfile \<or> str_includes t m_cicd \<or>
     str_includes t m_failures"

definition matches_marker :: "jsstring \<Rightarrow> bool" where
  \<comment> \<open>one of the nine markers\<close>
  "matches_marker t \<longleftrightarrow>
     before_metrics t \<or> str_includes t m_metrics \<or> str_includes t m_usage"

definition fence :: jsstring where
  "fence = [0x60, 0x60, 0x60]"

definition fence_with_tag :: "jsstring \<Rightarrow> bool" where
  \<comment> \<open>the specification's wording of a fence line: three backticks, optionally followed
      by a language tag (one word, no white space in it), and nothing else\<close>
  "fence_with_tag t \<longleftrightarrow> startsWith t fence \<and> list_all (\<lambda>c. \<not> isWhiteSpace c) (drop 3 t)"

section \<open>generateScript (groqService.ts)\<close>

text \<open>
  The awaited call to the provider is the only effect: it either throws or resolves to a
  completion, and \<open>generateScript\<close> is a function of that outcome. An error is its message.
\<close>

datatype js_error = Error jsstring

record Message =
  content :: "jsstring option"

record Choice =
  message :: "Message option"

record Completion =
  choices :: "Choice list"

definition response_text :: "Completion \<Rightarrow> jsstring" where
  \<comment> \<open>\<^verbatim>\<open>response.choices[0]?.message?.content || ""\<close>\<close>
  "response_text r =
     (case choices r of [] \<Rightarrow> []
      | c # _ \<Rightarrow> (case message c of None \<Rightarrow> []
                 | Some m \<Rightarrow> (case content m of None \<Rightarrow> [] | Some t \<Rightarrow> t)))"

definition try_block :: "js_error + Completion \<Rightarrow> js_error + ScriptResponse" where
  \<comment> \<open>the body of \<^verbatim>\<open>try\<close>: the call, the empty check, the parse\<close>
  "try_block outcome =
     (case outcome of
        Inl e \<Rightarrow> Inl e
      | Inr response \<Rightarrow>
          (let text = response_text response in
           if text = [] then Inl (Error (js ''The engine returned an empty response.''))
           else Inr (parseModelResponse text)))"

definition generateScript :: "js_error + Completion \<Rightarrow> js_error + ScriptResponse" where
  \<comment> \<open>\<^verbatim>\<open>catch (error)\<close> replaces whatever was thrown inside \<^verbatim>\<open>try\<close>\<close>
  "generateScript outcome =
     (case try_block outcome of
        Inl e \<Rightarrow> Inl (Error (js
          ''Failed to engineer script module. The engine encountered a verification fault.''))
      | Inr r \<Rightarrow> Inr r)"

section \<open>Example inputs\<close>

definition failures_state :: parser_state where
  "failures_state = initial_state\<lparr>currentSection := Some Failures\<rparr>"

definition summary_state :: parser_state where
  "summary_state = initial_state\<lparr>currentSection := Some Summary,
     sections := initial_sections\<lparr>summary := js ''Builds a backup tool.''\<rparr>\<rparr>"

definition summary_example :: jsstring where
  "summary_example =
     m_summary @ js '': Builds a backup tool.'' @ [0x0A] @ js ''Handles retries too.''"

definition tests_na_example :: jsstring where
  "tests_na_example = m_tests @ js '':'' @ [0x0A] @ js ''  N/A '' @ [0x0A]"

definition empty_completion :: Completion where
  "empty_completion = \<lparr>choices = [\<lparr>message = Some \<lparr>content = Some []\<rparr>\<rparr>]\<rparr>"

definition generic_fault :: js_error where
  "generic_fault = Error (js
     ''Failed to engineer script module. The engine encountered a verification fault.'')"

definition metrics_example_ok :: jsstring where
  "metrics_example_ok = m_metrics @ js '' | 90 | 240 | 7''"

definition metrics_example_abc :: jsstring where
  "metrics_example_abc = m_metrics @ js '' | abc | 240 | 7''"

definition summary_and_metrics_line :: jsstring where
  "summary_and_metrics_line = m_summary @ js '' and '' @ m_metrics @ js '' | 90 | 240 | 7''"

definition metrics_zero_line :: jsstring where
  "metrics_zero_line = m_metrics @ js '' | 0 | 240 | 0''"

definition metrics_zeros_text :: jsstring where
  "metrics_zeros_text = js ''Done.'' @ [0x0A] @ m_metrics @ js '' | 0 | 12 | 0''"

definition metrics_low_line :: jsstring where
  "metrics_low_line = js ''  '' @ m_metrics @ js '' | 10 | 0x1F | -3 ''"

definition metrics_short_text :: jsstring where
  "metrics_short_text =
     js ''intro'' @ [0x0A] @ m_metrics @ js '' | 90 | 240'' @ [0x0A] @ js ''bye''"

definition zero_metrics :: ValueMetrics where
  "zero_metrics = \<lparr>timeSavedMinutes = 0, linesProduced = 0, potentialErrorsMitigated = 0\<rparr>"

definition script_state :: parser_state where
  "script_state = initial_state\<lparr>currentSection := Some Script\<rparr>"

definition fence_code_line :: jsstring where
  "fence_code_line = js ''```js console.log(1)''"

definition script_example :: jsstring where
  "script_example =
     m_script @ js '':'' @ [0x0A] @ js ''```python'' @ [0x0A] @ js ''print(1)'' @ [0x0A] @
     js ''```''"

definition markers :: "jsstring list" where
  "markers = [m_summary, m_assumptions, m_script, m_tests, m_dockerfile, m_cicd, m_failures,
     m_metrics, m_usage]"

definition buffer_clean :: "jsstring \<Rightarrow> bool" where
  \<comment> \<open>the invariant of the script buffer: no marker in it, and whole lines only\<close>
  "buffer_clean buf \<longleftrightarrow> \<not> matches_marker buf \<and> (buf = [] \<or> last buf = 0x0A)"

section \<open>Facts about the string operations\<close>

lemma startsWith_prefix: "startsWith s m \<longleftrightarrow> prefix m s"
  unfolding startsWith_def
  by (metis append_take_drop_id append_eq_conv_conj prefix_def)

lemma includes_sublist: "str_includes s m \<longleftrightarrow> sublist m s"
  by (induction s) (simp_all add: startsWith_prefix sublist_Cons_right)

lemma sublist_trim: "sublist (trim s) s"
proof -
  have "suffix (dropWhile isWhiteSpace s) s"
    by (rule suffix_dropWhile)
  moreover have "prefix (trim s) (dropWhile isWhiteSpace s)"
    unfolding trim_def by (metis suffix_dropWhile suffix_to_prefix rev_rev_ident)
  ultimately show ?thesis
    by (meson prefix_imp_sublist suffix_imp_sublist sublist_order.order_trans)
qed

lemma dropWhile_keeps:
  assumes "s = ps @ m @ ss" "m \<noteq> []" "\<not> P (hd m)"
  shows "\<exists>ps'. dropWhile P s = ps' @ m @ ss"
proof (cases "\<forall>x\<in>set ps. P x")
  case True
  then have "dropWhile P s = dropWhile P (m @ ss)"
    using assms(1) by (simp add: dropWhile_append)
  also have "\<dots> = m @ ss"
    using assms(2,3) by (cases m) simp_all
  finally show ?thesis by (intro exI[of _ "[]"]) simp
next
  case False
  then obtain x where "x \<in> set ps" "\<not> P x" by blast
  then have "dropWhile P s = dropWhile P ps @ m @ ss"
    unfolding assms(1) by (rule dropWhile_append1)
  then show ?thesis by blast
qed

lemma sublist_trim_keeps:
  assumes "sublist m s" "m \<noteq> []" "\<not> isWhiteSpace (hd m)" "\<not> isWhiteSpace (last m)"
  shows "sublist m (trim s)"
proof -
  obtain ps ss where s: "s = ps @ m @ ss"
    using assms(1) by (auto simp: sublist_def)
  obtain ps' where d: "dropWhile isWhiteSpace s = ps' @ m @ ss"
    using dropWhile_keeps[of s ps m ss isWhiteSpace] s assms(2,3) by blast
  have r: "rev (dropWhile isWhiteSpace s) = rev ss @ rev m @ rev ps'"
    by (simp add: d)
  have "\<not> isWhiteSpace (hd (rev m))"
    using assms(2,4) by (simp add: hd_rev)
  then obtain qs where "dropWhile isWhiteSpace (rev (dropWhile isWhiteSpace s)) = qs @ rev m @ rev ps'"
    using dropWhile_keeps[of "rev (dropWhile isWhiteSpace s)" "rev ss" "rev m" "rev ps'" isWhiteSpace] r assms(2)
    by auto
  then have "trim s = ps' @ m @ rev qs"
    by (simp add: trim_def)
  then show ?thesis by (auto simp: sublist_def)
qed

lemma split_nonempty: "split sep s \<noteq> []"
  by (induction s) (auto split: list.splits)

lemma split_hd_prefix: "prefix (hd (split sep s)) s"
  by (induction s) (auto split: list.splits)

lemma split_sublist: "l \<in> set (split sep s) \<Longrightarrow> sublist l s"
proof (induction s arbitrary: l)
  case Nil
  then show ?case by simp
next
  case (Cons c cs)
  show ?case
  proof (cases "c = sep")
    case True
    with Cons.prems have "l = [] \<or> l \<in> set (split sep cs)" by auto
    then show ?thesis using Cons.IH by (auto simp: sublist_Cons_right)
  next
    case False
    obtain p ps where sp: "split sep cs = p # ps"
      using split_nonempty[of sep cs] by (cases "split sep cs") auto
    with False Cons.prems have "l = c # p \<or> l \<in> set ps" by auto
    then show ?thesis
    proof
      assume l: "l = c # p"
      have "prefix p cs" using split_hd_prefix[of sep cs] sp by simp
      then show ?thesis using l by (simp add: sublist_Cons_right)
    next
      assume "l \<in> set ps"
      then have "sublist l cs" using Cons.IH[of l] sp by simp
      then show ?thesis by (simp add: sublist_Cons_right)
    qed
  qed
qed

lemma includes_trim_iff:
  assumes "m \<noteq> []" "\<not> isWhiteSpace (hd m)" "\<not> isWhiteSpace (last m)"
  shows "str_includes (trim s) m \<longleftrightarrow> str_includes s m"
  unfolding includes_sublist
  using sublist_trim_keeps[OF _ assms] sublist_trim[of s] sublist_order.order_trans by blast

lemma line_includes_text:
  assumes "l \<in> set (split sep text)" "str_includes (trim l) m"
  shows "str_includes text m"
proof -
  have "sublist m (trim l)" using assms(2) by (simp add: includes_sublist)
  also have "sublist (trim l) l" by (rule sublist_trim)
  also have "sublist l text" using assms(1) by (rule split_sublist)
  finally show ?thesis by (simp add: includes_sublist)
qed

lemma length_split: "length (split sep s) = Suc (length (filter (\<lambda>c. c = sep) s))"
  by (induction s) (auto simp: split_nonempty split: list.splits)

lemma filter_dropWhile_other:
  assumes "\<not> P sep"
  shows "filter (\<lambda>c. c = sep) (dropWhile P s) = filter (\<lambda>c. c = sep) s"
  using assms by (induction s) auto

lemma length_split_trim:
  assumes "\<not> isWhiteSpace sep"
  shows "length (split sep (trim s)) = length (split sep s)"
proof -
  have "filter (\<lambda>c. c = sep) (trim s) =
        rev (filter (\<lambda>c. c = sep) (dropWhile isWhiteSpace (rev (dropWhile isWhiteSpace s))))"
    by (simp add: trim_def rev_filter)
  also have "\<dots> = rev (filter (\<lambda>c. c = sep) (rev (dropWhile isWhiteSpace s)))"
    using assms by (simp add: filter_dropWhile_other)
  also have "\<dots> = filter (\<lambda>c. c = sep) (dropWhile isWhiteSpace s)"
    by (simp add: rev_filter)
  also have "\<dots> = filter (\<lambda>c. c = sep) s"
    using assms by (rule filter_dropWhile_other)
  finally show ?thesis by (simp add: length_split)
qed

lemma marker_ends:
  "m_summary \<noteq> [] \<and> \<not> isWhiteSpace (hd m_summary) \<and> \<not> isWhiteSpace (last m_summary)"
  "m_assumptions \<noteq> [] \<and> \<not> isWhiteSpace (hd m_assumptions) \<and> \<not> isWhiteSpace (last m_assumptions)"
  "m_script \<noteq> [] \<and> \<not> isWhiteSpace (hd m_script) \<and> \<not> isWhiteSpace (last m_script)"
  "m_tests \<noteq> [] \<and> \<not> isWhiteSpace (hd m_tests) \<and> \<not> isWhiteSpace (last m_tests)"
  "m_dockerfile \<noteq> [] \<and> \<not> isWhiteSpace (hd m_dockerfile) \<and> \<not> isWhiteSpace (last m_dockerfile)"
  "m_cicd \<noteq> [] \<and> \<not> isWhiteSpace (hd m_cicd) \<and> \<not> isWhiteSpace (last m_cicd)"
  "m_failures \<noteq> [] \<and> \<not> isWhiteSpace (hd m_failures) \<and> \<not> isWhiteSpace (last m_failures)"
  "m_metrics \<noteq> [] \<and> \<not> isWhiteSpace (hd m_metrics) \<and> \<not> isWhiteSpace (last m_metrics)"
  "m_usage \<noteq> [] \<and> \<not> isWhiteSpace (hd m_usage) \<and> \<not> isWhiteSpace (last m_usage)"
  by code_simp+

lemma pipe_not_space: "\<not> isWhiteSpace 0x7C"
  by code_simp

section \<open>Invariants of the pass\<close>

lemma foldl_invariant:
  assumes "P s" and "\<And>s x. x \<in> set xs \<Longrightarrow> P s \<Longrightarrow> P (f s x)"
  shows "P (foldl f s xs)"
  using assms by (induction xs arbitrary: s) simp_all

lemma run_invariant_lines:
  fixes P :: "parser_state \<Rightarrow> bool"
  assumes "\<forall>l\<in>set (split 0x0A text). H l"
    and "P initial_state"
    and "\<And>st line. H line \<Longrightarrow> P st \<Longrightarrow> P (step st line)"
  shows "P (run_lines text)"
  unfolding run_lines_def
proof (rule foldl_invariant[where P = P])
  show "P initial_state" by (rule assms(2))
next
  fix s x assume "x \<in> set (split 0x0A text)" "P s"
  then show "P (step s x)" using assms(1,3) by blast
qed

lemma run_invariant:
  fixes P :: "parser_state \<Rightarrow> bool"
  assumes "\<not> str_includes text m"
    and "P initial_state"
    and "\<And>st line. \<not> str_includes (trim line) m \<Longrightarrow> P st \<Longrightarrow> P (step st line)"
  shows "P (run_lines text)"
proof (rule run_invariant_lines[where H = "\<lambda>l. \<not> str_includes (trim l) m" and P = P])
  show "\<forall>l\<in>set (split 0x0A text). \<not> str_includes (trim l) m"
    using assms(1) line_includes_text by blast
next
  show "P initial_state" by (rule assms(2))
next
  fix st line assume "\<not> str_includes (trim line) m" "P st"
  then show "P (step st line)" by (rule assms(3))
qed

lemma step_metrics_kept:
  assumes "str_includes (trim line) m_metrics \<longrightarrow> length (split 0x7C (trim line)) < 4"
  shows "metrics (sections (step st line)) = metrics (sections st)"
proof (cases "str_includes (trim line) m_metrics")
  case True
  with assms have "\<not> 4 \<le> length (split 0x7C (trim line))" by simp
  then show ?thesis by (simp add: step_def Let_def pipe_parts_def)
next
  case False
  then show ?thesis by (simp add: step_def Let_def)
qed

lemma run_metrics_kept:
  assumes "\<forall>l\<in>set (split 0x0A text).
             str_includes (trim l) m_metrics \<longrightarrow> length (split 0x7C (trim l)) < 4"
  shows "metrics (sections (run_lines text)) = zero_metrics"
proof (rule run_invariant_lines[where P = "\<lambda>st. metrics (sections st) = zero_metrics",
      OF assms])
  show "metrics (sections initial_state) = zero_metrics"
    by (simp add: initial_state_def initial_sections_def zero_metrics_def)
qed (simp add: step_metrics_kept)

lemma finish_fields:
  "summary (finish s) = summary s"
  "assumptions (finish s) = assumptions s"
  "script (finish s) = trim (script s)"
  "dockerfile (finish s) = trim (dockerfile s)"
  "cicd (finish s) = trim (cicd s)"
  "failureSimulations (finish s) = failureSimulations s"
  "metrics (finish s) = metrics s"
  "usage (finish s) = usage s"
  by (simp_all add: finish_def Let_def)

lemma trim_Nil: "trim [] = []"
  by (simp add: trim_def)

lemma step_keeps_summary:
  assumes "\<not> str_includes (trim line) m_summary"
    and "currentSection st \<noteq> Some Summary \<and> summary (sections st) = []"
  shows "currentSection (step st line) \<noteq> Some Summary \<and> summary (sections (step st line)) = []"
  using assms by (simp add: step_def Let_def)

lemma step_keeps_assumptions:
  assumes "\<not> str_includes (trim line) m_assumptions"
    and "currentSection st \<noteq> Some Assumptions \<and> assumptions (sections st) = []"
  shows "currentSection (step st line) \<noteq> Some Assumptions \<and>
         assumptions (sections (step st line)) = []"
  using assms by (simp add: step_def Let_def)

lemma step_keeps_script:
  assumes "\<not> str_includes (trim line) m_script"
    and "currentSection st \<noteq> Some Script \<and> script (sections st) = []"
  shows "currentSection (step st line) \<noteq> Some Script \<and> script (sections (step st line)) = []"
  using assms by (simp add: step_def Let_def)

lemma step_keeps_tests:
  assumes "\<not> str_includes (trim line) m_tests"
    and "currentSection st \<noteq> Some Tests \<and> tests (sections st) = []"
  shows "currentSection (step st line) \<noteq> Some Tests \<and> tests (sections (step st line)) = []"
  using assms by (simp add: step_def Let_def)

lemma step_keeps_dockerfile:
  assumes "\<not> str_includes (trim line) m_dockerfile"
    and "currentSection st \<noteq> Some Dockerfile \<and> dockerfile (sections st) = []"
  shows "currentSection (step st line) \<noteq> Some Dockerfile \<and>
         dockerfile (sections (step st line)) = []"
  using assms by (simp add: step_def Let_def)

lemma step_keeps_cicd:
  assumes "\<not> str_includes (trim line) m_cicd"
    and "currentSection st \<noteq> Some Cicd \<and> cicd (sections st) = []"
  shows "currentSection (step st line) \<noteq> Some Cicd \<and> cicd (sections (step st line)) = []"
  using assms by (simp add: step_def Let_def)

lemma step_keeps_failures:
  assumes "\<not> str_includes (trim line) m_failures"
    and "currentSection st \<noteq> Some Failures \<and> failureSimulations (sections st) = []"
  shows "currentSection (step st line) \<noteq> Some Failures \<and>
         failureSimulations (sections (step st line)) = []"
  using assms by (simp add: step_def Let_def)

lemma step_keeps_usage:
  assumes "\<not> str_includes (trim line) m_usage"
    and "currentSection st \<noteq> Some Usage \<and> usage (sections st) = []"
  shows "currentSection (step st line) \<noteq> Some Usage \<and> usage (sections (step st line)) = []"
  using assms by (simp add: step_def Let_def)

lemma initial_fields:
  "currentSection initial_state = None"
  "summary (sections initial_state) = []"
  "assumptions (sections initial_state) = []"
  "script (sections initial_state) = []"
  "tests (sections initial_state) = []"
  "dockerfile (sections initial_state) = []"
  "cicd (sections initial_state) = []"
  "failureSimulations (sections initial_state) = []"
  "usage (sections initial_state) = []"
  by (simp_all add: initial_state_def initial_sections_def)

lemma run_summary_unmatched:
  assumes "\<not> str_includes text m_summary"
  shows "summary (sections (run_lines text)) = []"
  using run_invariant[OF assms, where P = "\<lambda>st. currentSection st \<noteq> Some Summary \<and>
      summary (sections st) = []"] step_keeps_summary
  by (simp add: initial_fields)

lemma run_assumptions_unmatched:
  assumes "\<not> str_includes text m_assumptions"
  shows "assumptions (sections (run_lines text)) = []"
  using run_invariant[OF assms, where P = "\<lambda>st. currentSection st \<noteq> Some Assumptions \<and>
      assumptions (sections st) = []"] step_keeps_assumptions
  by (simp add: initial_fields)

lemma run_script_unmatched:
  assumes "\<not> str_includes text m_script"
  shows "script (sections (run_lines text)) = []"
  using run_invariant[OF assms, where P = "\<lambda>st. currentSection st \<noteq> Some Script \<and>
      script (sections st) = []"] step_keeps_script
  by (simp add: initial_fields)

lemma run_tests_unmatched:
  assumes "\<not> str_includes text m_tests"
  shows "tests (sections (run_lines text)) = []"
  using run_invariant[OF assms, where P = "\<lambda>st. currentSection st \<noteq> Some Tests \<and>
      tests (sections st) = []"] step_keeps_tests
  by (simp add: initial_fields)

lemma run_dockerfile_unmatched:
  assumes "\<not> str_includes text m_dockerfile"
  shows "dockerfile (sections (run_lines text)) = []"
  using run_invariant[OF assms, where P = "\<lambda>st. currentSection st \<noteq> Some Dockerfile \<and>
      dockerfile (sections st) = []"] step_keeps_dockerfile
  by (simp add: initial_fields)

lemma run_cicd_unmatched:
  assumes "\<not> str_includes text m_cicd"
  shows "cicd (sections (run_lines text)) = []"
  using run_invariant[OF assms, where P = "\<lambda>st. currentSection st \<noteq> Some Cicd \<and>
      cicd (sections st) = []"] step_keeps_cicd
  by (simp add: initial_fields)

lemma run_failures_unmatched:
  assumes "\<not> str_includes text m_failures"
  shows "failureSimulations (sections (run_lines text)) = []"
  using run_invariant[OF assms, where P = "\<lambda>st. currentSection st \<noteq> Some Failures \<and>
      failureSimulations (sections st) = []"] step_keeps_failures
  by (simp add: initial_fields)

lemma run_usage_unmatched:
  assumes "\<not> str_includes text m_usage"
  shows "usage (sections (run_lines text)) = []"
  using run_invariant[OF assms, where P = "\<lambda>st. currentSection st \<noteq> Some Usage \<and>
      usage (sections st) = []"] step_keeps_usage
  by (simp add: initial_fields)

lemma tests_finish_empty: "tests s = [] \<Longrightarrow> tests (finish s) = []"
  by (simp add: finish_def Let_def trim_Nil)

lemma script_unmatched:
  "\<not> str_includes text m_script \<Longrightarrow> script (parseModelResponse text) = []"
  by (simp add: parseModelResponse_def finish_fields run_script_unmatched trim_Nil)

subsection \<open>The script buffer never holds a marker\<close>

lemma sublist_across_sep:
  assumes "nl \<notin> set m" and "sublist m (a @ nl # b)"
  shows "sublist m a \<or> sublist m b"
proof -
  from assms(2) consider "sublist m a" | "sublist m (nl # b)"
    | x1 x2 where "m = x1 @ x2" "suffix x1 a" "prefix x2 (nl # b)"
    by (auto simp: sublist_append)
  then show ?thesis
  proof cases
    case 1
    then show ?thesis by simp
  next
    case 2
    then have "prefix m (nl # b) \<or> sublist m b" by (simp add: sublist_Cons_right)
    moreover have "m = []" if "prefix m (nl # b)"
      using that assms(1) by (cases m) auto
    ultimately show ?thesis by auto
  next
    case 3
    have "x2 = []"
      using 3(1,3) assms(1) by (cases x2) auto
    with 3 show ?thesis by (auto intro: suffix_imp_sublist)
  qed
qed

lemma matches_marker_iff: "matches_marker t \<longleftrightarrow> (\<exists>m\<in>set markers. str_includes t m)"
  by (simp add: matches_marker_def before_metrics_def markers_def)

lemma markers_facts:
  "\<forall>m\<in>set markers. m \<noteq> [] \<and> 0x0A \<notin> set m \<and> \<not> isWhiteSpace (hd m) \<and> \<not> isWhiteSpace (last m)"
  by code_simp

lemma matches_marker_trim: "matches_marker (trim s) \<longleftrightarrow> matches_marker s"
  using markers_facts by (simp add: matches_marker_iff includes_trim_iff)

lemma matches_marker_sublist:
  assumes "matches_marker a" "sublist a b"
  shows "matches_marker b"
  using assms sublist_order.order_trans by (auto simp: matches_marker_iff includes_sublist)

lemma matches_marker_across:
  assumes "matches_marker (a @ 0x0A # b)"
  shows "matches_marker a \<or> matches_marker b"
proof -
  from assms obtain m where m: "m \<in> set markers" "sublist m (a @ 0x0A # b)"
    by (auto simp: matches_marker_iff includes_sublist)
  then have "0x0A \<notin> set m" using markers_facts by blast
  then have "sublist m a \<or> sublist m b"
    using m(2) by (rule sublist_across_sep)
  with m(1) show ?thesis by (auto simp: matches_marker_iff includes_sublist)
qed

lemma not_matches_Nil: "\<not> matches_marker []"
  using markers_facts by (auto simp: matches_marker_iff)

lemma step_script_appends:
  "script (sections (step st line)) = script (sections st) \<or>
   (script (sections (step st line)) = script (sections st) @ line @ [0x0A] \<and>
    \<not> matches_marker (trim line))"
  by (simp add: step_def Let_def matches_marker_def before_metrics_def)

lemma buffer_clean_append:
  assumes "buffer_clean buf" and "\<not> matches_marker (trim line)"
  shows "buffer_clean (buf @ line @ [0x0A])"
proof -
  have nl: "\<not> matches_marker line"
    using assms(2) by (simp add: matches_marker_trim)
  have tail: "\<not> matches_marker (line @ [0x0A])"
    using matches_marker_across[of line "[]"] nl not_matches_Nil by auto
  have "\<not> matches_marker (buf @ line @ [0x0A])"
  proof (cases "buf = []")
    case True
    then show ?thesis using tail by simp
  next
    case False
    with assms(1) obtain b where b: "buf = b @ [0x0A]"
      unfolding buffer_clean_def by (metis append_butlast_last_id)
    have "\<not> matches_marker b"
      using assms(1) b matches_marker_sublist[of b buf] unfolding buffer_clean_def
      by (auto intro: prefix_imp_sublist)
    then show ?thesis
      using matches_marker_across[of b "line @ [0x0A]"] tail b by auto
  qed
  then show ?thesis by (simp add: buffer_clean_def)
qed

lemma run_script_clean: "buffer_clean (script (sections (run_lines text)))"
proof (rule run_invariant_lines[where H = "\<lambda>l. True"
      and P = "\<lambda>st. buffer_clean (script (sections st))"])
  show "buffer_clean (script (sections initial_state))"
    by (simp add: initial_fields buffer_clean_def not_matches_Nil)
next
  fix st :: parser_state and line
  assume "buffer_clean (script (sections st))"
  then show "buffer_clean (script (sections (step st line)))"
    using step_script_appends[of st line] buffer_clean_append by auto
qed simp

section \<open>generateScript: the two faults\<close>

lemma generateScript_resolved:
  "generateScript (Inr r) =
     (if response_text r = [] then Inl generic_fault
      else Inr (parseModelResponse (response_text r)))"
  by (simp add: generateScript_def try_block_def generic_fault_def Let_def)

lemma generateScript_threw: "generateScript (Inl e) = Inl generic_fault"
  by (simp add: generateScript_def try_block_def generic_fault_def)

lemma generateScript_one_error:
  assumes "generateScript outcome = Inl e"
  shows "e = generic_fault"
  using assms
  by (cases outcome) (auto simp: generateScript_threw generateScript_resolved split: if_splits)

text \<open>
  Claim C1. A call that succeeds with empty text should reach the caller as an error
  distinct from a transport fault. In the code the empty-response error is thrown inside
  the \<^verbatim>\<open>try\<close> block whose \<^verbatim>\<open>catch\<close> replaces every error by one fixed message, so a
  completion with empty content and a thrown connection error give the caller the same
  error value (\<open>generateScript_one_error\<close>: it is the only error a caller ever sees).
\<close>

theorem generateScript_empty_text_same_as_fault:
  "generateScript (Inr empty_completion) = Inl generic_fault \<and>
   generateScript (Inl (Error (js ''Connection error.''))) = Inl generic_fault"
  by (simp add: generateScript_def try_block_def response_text_def empty_completion_def
      generic_fault_def)

section \<open>The tests sentinel\<close>

text \<open>
  Claim C8. For every input the returned tests field is the empty string when the
  accumulated tests buffer, trimmed, is the text N/A, and the trimmed buffer otherwise.
\<close>

theorem tests_sentinel_replaced:
  "tests (parseModelResponse text) =
     (if trim (tests (sections (run_lines text))) = js ''N/A'' then []
      else trim (tests (sections (run_lines text))))"
  by (simp add: parseModelResponse_def finish_def Let_def)

theorem tests_sentinel_replaced_witness:
  "trim (tests (sections (run_lines tests_na_example))) = js ''N/A'' \<and>
   tests (parseModelResponse tests_na_example) = []"
proof -
  have h: "trim (tests (sections (run_lines tests_na_example))) = js ''N/A''"
    by code_simp
  have "tests (parseModelResponse tests_na_example) = []"
    using tests_sentinel_replaced[of tests_na_example] h by simp
  with h show ?thesis by (intro conjI)
qed

section \<open>Lines of the failures section\<close>

text \<open>
  Claim C9. While the current section is failures, a line that matches no marker and
  whose trimmed form starts with a dash has the dash removed and the rest split on the
  pipe, each part trimmed. With at least three parts a FailureSimulation made of the
  first three is appended (further parts are ignored); with fewer the line is dropped
  and the state is unchanged.
\<close>

theorem failures_bullet_line:
  assumes "currentSection st = Some Failures"
    and "\<not> matches_marker (trim line)"
    and "startsWith (trim line) [0x2D]"
  shows "step st line =
     (let parts = map trim (split 0x7C (drop 1 (trim line))) in
      if length parts \<ge> 3 then
        st\<lparr>sections := (sections st)\<lparr>failureSimulations := failureSimulations (sections st) @
          [\<lparr>scenario = parts ! 0, trigger = parts ! 1, behavior = parts ! 2\<rparr>]\<rparr>\<rparr>
      else st)"
  using assms
  by (simp add: step_def matches_marker_def before_metrics_def Let_def pipe_parts_def
      substring_def)

theorem failures_bullet_line_witness:
  "currentSection failures_state = Some Failures \<and>
   \<not> matches_marker (trim (js '' - disk full | write fails | exits 1 | extra'')) \<and>
   startsWith (trim (js '' - disk full | write fails | exits 1 | extra'')) [0x2D] \<and>
   step failures_state (js '' - disk full | write fails | exits 1 | extra'') =
     failures_state\<lparr>sections := initial_sections\<lparr>failureSimulations :=
       [\<lparr>scenario = js ''disk full'', trigger = js ''write fails'',
         behavior = js ''exits 1''\<rparr>]\<rparr>\<rparr> \<and>
   \<not> matches_marker (trim (js ''- disk full | write fails'')) \<and>
   startsWith (trim (js ''- disk full | write fails'')) [0x2D] \<and>
   step failures_state (js ''- disk full | write fails'') = failures_state"
proof -
  have h1: "currentSection failures_state = Some Failures"
    by (simp add: failures_state_def)
  have h2: "\<not> matches_marker (trim (js '' - disk full | write fails | exits 1 | extra''))"
    by code_simp
  have h3: "startsWith (trim (js '' - disk full | write fails | exits 1 | extra'')) [0x2D]"
    by code_simp
  have k2: "\<not> matches_marker (trim (js ''- disk full | write fails''))"
    by code_simp
  have k3: "startsWith (trim (js ''- disk full | write fails'')) [0x2D]"
    by code_simp
  have c1: "step failures_state (js '' - disk full | write fails | exits 1 | extra'') =
     failures_state\<lparr>sections := initial_sections\<lparr>failureSimulations :=
       [\<lparr>scenario = js ''disk full'', trigger = js ''write fails'',
         behavior = js ''exits 1''\<rparr>]\<rparr>\<rparr>"
    unfolding failures_bullet_line[OF h1 h2 h3] by code_simp
  have c2: "step failures_state (js ''- disk full | write fails'') = failures_state"
    unfolding failures_bullet_line[OF h1 k2 k3] by code_simp
  from h1 h2 h3 c1 k2 k3 c2 show ?thesis by (intro conjI)
qed

section \<open>Lines of the summary section\<close>

text \<open>
  Claim C10. While the current section is summary, a line that matches no marker and
  whose trimmed form is not empty is appended, trimmed, to the summary exactly when it
  is not already a substring of the accumulated summary; a single space separates it
  from the text accumulated so far (there is nothing to separate while the summary is
  still empty). The two lines of the example give the summary
  \<^verbatim>\<open>Builds a backup tool. Handles retries too.\<close>
\<close>

theorem summary_line_appended:
  "(currentSection st = Some Summary \<longrightarrow> \<not> matches_marker (trim line) \<longrightarrow> trim line \<noteq> [] \<longrightarrow>
      step st line =
        (if \<not> str_includes (summary (sections st)) (trim line) then
           st\<lparr>sections := (sections st)\<lparr>summary :=
             (if summary (sections st) = [] then trim line
              else summary (sections st) @ [0x20] @ trim line)\<rparr>\<rparr>
         else st)) \<and>
   summary (parseModelResponse summary_example) =
     js ''Builds a backup tool. Handles retries too.''"
proof (intro conjI impI)
  assume "currentSection st = Some Summary" "\<not> matches_marker (trim line)" "trim line \<noteq> []"
  then show "step st line =
        (if \<not> str_includes (summary (sections st)) (trim line) then
           st\<lparr>sections := (sections st)\<lparr>summary :=
             (if summary (sections st) = [] then trim line
              else summary (sections st) @ [0x20] @ trim line)\<rparr>\<rparr>
         else st)"
    by (simp add: step_def matches_marker_def before_metrics_def Let_def join_space_def)
next
  show "summary (parseModelResponse summary_example) =
     js ''Builds a backup tool. Handles retries too.''"
    by code_simp
qed

theorem summary_line_appended_witness:
  "currentSection summary_state = Some Summary \<and>
   \<not> matches_marker (trim (js ''  Handles retries too. '')) \<and>
   trim (js ''  Handles retries too. '') \<noteq> [] \<and>
   summary (sections (step summary_state (js ''  Handles retries too. ''))) =
     js ''Builds a backup tool. Handles retries too.'' \<and>
   \<not> matches_marker (trim (js ''backup tool'')) \<and>
   trim (js ''backup tool'') \<noteq> [] \<and>
   step summary_state (js ''backup tool'') = summary_state"
proof -
  have h1: "currentSection summary_state = Some Summary"
    by (simp add: summary_state_def)
  have h2: "\<not> matches_marker (trim (js ''  Handles retries too. ''))"
    by code_simp
  have h3: "trim (js ''  Handles retries too. '') \<noteq> []"
    by code_simp
  have k2: "\<not> matches_marker (trim (js ''backup tool''))"
    by code_simp
  have k3: "trim (js ''backup tool'') \<noteq> []"
    by code_simp
  note gen = summary_line_appended[THEN conjunct1, rule_format]
  have c1: "summary (sections (step summary_state (js ''  Handles retries too. ''))) =
     js ''Builds a backup tool. Handles retries too.''"
    unfolding gen[OF h1 h2 h3] by code_simp
  have c2: "step summary_state (js ''backup tool'') = summary_state"
    unfolding gen[OF h1 k2 k3] by code_simp
  from h1 h2 h3 c1 k2 k3 c2 show ?thesis by (intro conjI)
qed

section \<open>The metrics line\<close>

text \<open>
  Claim C3, as stated: every line containing the metrics marker leaves the current
  section alone and, with at least four parts, stores parts 1 to 3 parsed as integers,
  the fallbacks 30, 0 and 5 standing in on parse failure. It fails in two places: a line
  that also contains a marker tested earlier is taken as that section's header, and a
  part that parses to zero is replaced by the fallback as well.
\<close>

theorem metrics_line_counterexample:
  "str_includes summary_and_metrics_line m_metrics \<and>
   currentSection initial_state = None \<and>
   currentSection (step initial_state summary_and_metrics_line) = Some Summary \<and>
   metrics (sections (step initial_state summary_and_metrics_line)) = zero_metrics \<and>
   str_includes metrics_zero_line m_metrics \<and>
   pipe_parts (trim metrics_zero_line) = [m_metrics, js ''0'', js ''240'', js ''0''] \<and>
   parseInt (js ''0'') = Some 0 \<and>
   metrics (sections (step initial_state metrics_zero_line)) =
     \<lparr>timeSavedMinutes = 30, linesProduced = 240, potentialErrorsMitigated = 5\<rparr>"
  by code_simp

text \<open>
  Claim C3, amended. For every line whose trimmed form contains the metrics marker and
  none of the seven markers tested before it, the parser changes neither the current
  section nor the code-block flag; it splits the trimmed line on the pipe and trims each
  part; with at least four parts it stores parts 1 to 3 parsed as integers, where the
  fallbacks 30, 0 and 5 stand in when the parse fails or gives zero; with fewer parts
  the state is unchanged. The two example lines give 90, 240, 7 and 30, 240, 7.
\<close>

theorem metrics_line_parsed:
  "(str_includes (trim line) m_metrics \<longrightarrow> \<not> before_metrics (trim line) \<longrightarrow>
      currentSection (step st line) = currentSection st \<and>
      inCodeBlock (step st line) = inCodeBlock st \<and>
      (let parts = map trim (split 0x7C (trim line)) in
       if length parts \<ge> 4 then
         sections (step st line) = (sections st)\<lparr>metrics :=
           \<lparr>timeSavedMinutes =
              (case parseInt (parts ! 1) of None \<Rightarrow> 30 | Some v \<Rightarrow> if v = 0 then 30 else v),
            linesProduced =
              (case parseInt (parts ! 2) of None \<Rightarrow> 0 | Some v \<Rightarrow> v),
            potentialErrorsMitigated =
              (case parseInt (parts ! 3) of None \<Rightarrow> 5 | Some v \<Rightarrow> if v = 0 then 5 else v)\<rparr>\<rparr>
       else step st line = st)) \<and>
   metrics (parseModelResponse metrics_example_ok) =
     \<lparr>timeSavedMinutes = 90, linesProduced = 240, potentialErrorsMitigated = 7\<rparr> \<and>
   metrics (parseModelResponse metrics_example_abc) =
     \<lparr>timeSavedMinutes = 30, linesProduced = 240, potentialErrorsMitigated = 7\<rparr>"
proof (intro conjI impI)
  assume h: "str_includes (trim line) m_metrics" "\<not> before_metrics (trim line)"
  then show "currentSection (step st line) = currentSection st"
    by (simp add: step_def before_metrics_def Let_def)
  from h show "inCodeBlock (step st line) = inCodeBlock st"
    by (simp add: step_def before_metrics_def Let_def)
  from h show "let parts = map trim (split 0x7C (trim line)) in
       if length parts \<ge> 4 then
         sections (step st line) = (sections st)\<lparr>metrics :=
           \<lparr>timeSavedMinutes =
              (case parseInt (parts ! 1) of None \<Rightarrow> 30 | Some v \<Rightarrow> if v = 0 then 30 else v),
            linesProduced =
              (case parseInt (parts ! 2) of None \<Rightarrow> 0 | Some v \<Rightarrow> v),
            potentialErrorsMitigated =
              (case parseInt (parts ! 3) of None \<Rightarrow> 5 | Some v \<Rightarrow> if v = 0 then 5 else v)\<rparr>\<rparr>
       else step st line = st"
    by (simp add: step_def before_metrics_def Let_def pipe_parts_def num_or_def
        split: option.splits)
next
  show "metrics (parseModelResponse metrics_example_ok) =
     \<lparr>timeSavedMinutes = 90, linesProduced = 240, potentialErrorsMitigated = 7\<rparr>"
    by code_simp
next
  show "metrics (parseModelResponse metrics_example_abc) =
     \<lparr>timeSavedMinutes = 30, linesProduced = 240, potentialErrorsMitigated = 7\<rparr>"
    by code_simp
qed

theorem metrics_line_parsed_witness:
  "str_includes (trim metrics_low_line) m_metrics \<and>
   \<not> before_metrics (trim metrics_low_line) \<and>
   currentSection (step script_state metrics_low_line) = Some Script \<and>
   metrics (sections (step script_state metrics_low_line)) =
     \<lparr>timeSavedMinutes = 10, linesProduced = 31, potentialErrorsMitigated = - 3\<rparr>"
proof -
  have h1: "str_includes (trim metrics_low_line) m_metrics"
    by code_simp
  have h2: "\<not> before_metrics (trim metrics_low_line)"
    by code_simp
  note gen = metrics_line_parsed[of metrics_low_line script_state, THEN conjunct1, rule_format,
      OF h1 h2]
  have c1: "currentSection (step script_state metrics_low_line) = Some Script"
    unfolding gen[THEN conjunct1] by code_simp
  have len: "length (map trim (split 0x7C (trim metrics_low_line))) \<ge> 4"
    by code_simp
  have "sections (step script_state metrics_low_line) = (sections script_state)\<lparr>metrics :=
      \<lparr>timeSavedMinutes =
         (case parseInt (map trim (split 0x7C (trim metrics_low_line)) ! 1) of
            None \<Rightarrow> 30 | Some v \<Rightarrow> if v = 0 then 30 else v),
       linesProduced =
         (case parseInt (map trim (split 0x7C (trim metrics_low_line)) ! 2) of
            None \<Rightarrow> 0 | Some v \<Rightarrow> v),
       potentialErrorsMitigated =
         (case parseInt (map trim (split 0x7C (trim metrics_low_line)) ! 3) of
            None \<Rightarrow> 5 | Some v \<Rightarrow> if v = 0 then 5 else v)\<rparr>\<rparr>"
    (is "_ = ?stored")
    using gen[THEN conjunct2, THEN conjunct2] len by (simp add: Let_def)
  then have "metrics (sections (step script_state metrics_low_line)) = metrics ?stored"
    by (rule arg_cong)
  also have "metrics ?stored =
     \<lparr>timeSavedMinutes = 10, linesProduced = 31, potentialErrorsMitigated = - 3\<rparr>"
    by code_simp
  finally have c2: "metrics (sections (step script_state metrics_low_line)) =
     \<lparr>timeSavedMinutes = 10, linesProduced = 31, potentialErrorsMitigated = - 3\<rparr>" .
  from h1 h2 c1 c2 show ?thesis by (intro conjI)
qed

text \<open>
  Claim C4, as stated: a part 1 (or part 3) that parses as an integer, the integer 0
  included, is stored as parsed. It fails at zero: the line
  \<^verbatim>\<open>| 0 | 12 | 0\<close> parses to 0 in parts 1 and 3 and the stored values are 30 and 5.
\<close>

theorem metrics_zero_counterexample:
  "pipe_parts (trim (m_metrics @ js '' | 0 | 12 | 0'')) =
     [m_metrics, js ''0'', js ''12'', js ''0''] \<and>
   parseInt (js ''0'') = Some 0 \<and>
   metrics (parseModelResponse metrics_zeros_text) =
     \<lparr>timeSavedMinutes = 30, linesProduced = 12, potentialErrorsMitigated = 5\<rparr>"
  by code_simp

text \<open>
  Claim C4, amended. The defaults do not enforce a minimum: for every metrics line (its
  trimmed form contains the metrics marker and none of the markers tested before it)
  with at least four parts, when part 1 parses to an integer other than 0 the stored
  timeSavedMinutes is that integer, and likewise part 3 and potentialErrorsMitigated;
  when the part parses to 0 the default, 30 or 5, is stored.
\<close>

theorem metrics_parsed_value_stored:
  assumes "str_includes (trim line) m_metrics"
    and "\<not> before_metrics (trim line)"
    and "length (pipe_parts (trim line)) \<ge> 4"
  shows "(\<forall>v. parseInt (pipe_parts (trim line) ! 1) = Some v \<longrightarrow>
            timeSavedMinutes (metrics (sections (step st line))) = (if v = 0 then 30 else v)) \<and>
         (\<forall>v. parseInt (pipe_parts (trim line) ! 3) = Some v \<longrightarrow>
            potentialErrorsMitigated (metrics (sections (step st line))) =
              (if v = 0 then 5 else v))"
  using assms by (simp add: step_def before_metrics_def Let_def num_or_def)

theorem metrics_parsed_value_stored_witness:
  "str_includes (trim metrics_low_line) m_metrics \<and>
   \<not> before_metrics (trim metrics_low_line) \<and>
   length (pipe_parts (trim metrics_low_line)) \<ge> 4 \<and>
   parseInt (pipe_parts (trim metrics_low_line) ! 1) = Some 10 \<and>
   timeSavedMinutes (metrics (sections (step initial_state metrics_low_line))) = 10 \<and>
   parseInt (pipe_parts (trim metrics_low_line) ! 3) = Some (- 3) \<and>
   potentialErrorsMitigated (metrics (sections (step initial_state metrics_low_line))) = - 3"
proof -
  have h1: "str_includes (trim metrics_low_line) m_metrics"
    by code_simp
  have h2: "\<not> before_metrics (trim metrics_low_line)"
    by code_simp
  have h3: "length (pipe_parts (trim metrics_low_line)) \<ge> 4"
    by code_simp
  have p1: "parseInt (pipe_parts (trim metrics_low_line) ! 1) = Some 10"
    by code_simp
  have p3: "parseInt (pipe_parts (trim metrics_low_line) ! 3) = Some (- 3)"
    by code_simp
  note gen = metrics_parsed_value_stored[OF h1 h2 h3, of initial_state]
  have c1: "timeSavedMinutes (metrics (sections (step initial_state metrics_low_line))) = 10"
    using gen[THEN conjunct1, rule_format, OF p1] by simp
  have c3: "potentialErrorsMitigated (metrics (sections (step initial_state metrics_low_line)))
      = - 3"
    using gen[THEN conjunct2, rule_format, OF p3] by simp
  from h1 h2 h3 p1 c1 p3 c3 show ?thesis by (intro conjI)
qed

text \<open>
  Claim C5. When no line that contains the metrics marker has at least four parts
  between pipes, and in particular when the input contains no metrics marker at all, the
  returned metrics record is the initial one: 0, 0, 0.
\<close>

theorem metrics_stay_zero:
  "((\<forall>l\<in>set (split 0x0A text). str_includes l m_metrics \<longrightarrow> length (split 0x7C l) < 4) \<longrightarrow>
      metrics (parseModelResponse text) = zero_metrics) \<and>
   (\<not> str_includes text m_metrics \<longrightarrow> metrics (parseModelResponse text) = zero_metrics)"
proof (intro conjI impI)
  assume h: "\<forall>l\<in>set (split 0x0A text). str_includes l m_metrics \<longrightarrow> length (split 0x7C l) < 4"
  have "\<forall>l\<in>set (split 0x0A text).
          str_includes (trim l) m_metrics \<longrightarrow> length (split 0x7C (trim l)) < 4"
    using h by (simp add: includes_trim_iff marker_ends length_split_trim pipe_not_space)
  then show "metrics (parseModelResponse text) = zero_metrics"
    by (simp add: parseModelResponse_def finish_fields run_metrics_kept)
next
  assume "\<not> str_includes text m_metrics"
  then have "\<forall>l\<in>set (split 0x0A text).
          str_includes (trim l) m_metrics \<longrightarrow> length (split 0x7C (trim l)) < 4"
    using line_includes_text by blast
  then show "metrics (parseModelResponse text) = zero_metrics"
    by (simp add: parseModelResponse_def finish_fields run_metrics_kept)
qed

theorem metrics_stay_zero_witness:
  "split 0x0A metrics_short_text =
     [js ''intro'', m_metrics @ js '' | 90 | 240'', js ''bye''] \<and>
   length (split 0x7C (m_metrics @ js '' | 90 | 240'')) = 3 \<and>
   str_includes metrics_short_text m_metrics \<and>
   metrics (parseModelResponse metrics_short_text) = zero_metrics \<and>
   \<not> str_includes (js ''no markers here'') m_metrics \<and>
   metrics (parseModelResponse (js ''no markers here'')) = zero_metrics"
proof -
  have h: "\<forall>l\<in>set (split 0x0A metrics_short_text).
      str_includes l m_metrics \<longrightarrow> length (split 0x7C l) < 4"
    by code_simp
  have i: "str_includes metrics_short_text m_metrics"
    by code_simp
  have ls: "split 0x0A metrics_short_text =
     [js ''intro'', m_metrics @ js '' | 90 | 240'', js ''bye'']"
    by code_simp
  have n: "length (split 0x7C (m_metrics @ js '' | 90 | 240'')) = 3"
    by code_simp
  have k: "\<not> str_includes (js ''no markers here'') m_metrics"
    by code_simp
  have c1: "metrics (parseModelResponse metrics_short_text) = zero_metrics"
    using metrics_stay_zero[of metrics_short_text, THEN conjunct1] h by blast
  have c2: "metrics (parseModelResponse (js ''no markers here'')) = zero_metrics"
    using metrics_stay_zero[of "js ''no markers here''", THEN conjunct2] k by blast
  from ls n i c1 k c2 show ?thesis by (intro conjI)
qed

section \<open>Lines of the code sections\<close>

text \<open>
  Claim C7, as stated: in a code section only a line that is nothing but a fence (three
  backticks and at most a language tag) toggles the flag and is left out, and every
  other line is appended. It fails for a line that starts with three backticks and goes
  on with more than a tag: \<^verbatim>\<open>```js console.log(1)\<close> is left out of the script, and the
  flag is toggled.
\<close>

theorem fence_line_counterexample:
  "currentSection script_state = Some Script \<and>
   \<not> matches_marker (trim fence_code_line) \<and>
   \<not> fence_with_tag (trim fence_code_line) \<and>
   step script_state fence_code_line = script_state\<lparr>inCodeBlock := True\<rparr> \<and>
   script (sections (step script_state fence_code_line)) \<noteq>
     script (sections script_state) @ fence_code_line @ [0x0A] \<and>
   script (parseModelResponse (m_script @ [0x0A] @ fence_code_line)) = []"
  by code_simp

text \<open>
  Claim C7, amended. While the current section is one of script, tests, dockerfile and
  cicd and the line matches no marker: a line whose trimmed form starts with three
  backticks, whatever follows them, toggles inCodeBlock and is not appended; every other
  line is appended as it is, not trimmed, followed by a newline, whatever the value of
  inCodeBlock. The fenced example gives the script \<^verbatim>\<open>print(1)\<close>.
\<close>

theorem code_line_appended:
  "(currentSection st \<in> {Some Script, Some Tests, Some Dockerfile, Some Cicd} \<longrightarrow>
    \<not> matches_marker (trim line) \<longrightarrow>
      step st line =
        (if startsWith (trim line) fence then st\<lparr>inCodeBlock := \<not> inCodeBlock st\<rparr>
         else if currentSection st = Some Script then
           st\<lparr>sections := (sections st)\<lparr>script := script (sections st) @ line @ [0x0A]\<rparr>\<rparr>
         else if currentSection st = Some Tests then
           st\<lparr>sections := (sections st)\<lparr>tests := tests (sections st) @ line @ [0x0A]\<rparr>\<rparr>
         else if currentSection st = Some Dockerfile then
           st\<lparr>sections := (sections st)\<lparr>dockerfile :=
             dockerfile (sections st) @ line @ [0x0A]\<rparr>\<rparr>
         else
           st\<lparr>sections := (sections st)\<lparr>cicd := cicd (sections st) @ line @ [0x0A]\<rparr>\<rparr>)) \<and>
   script (parseModelResponse script_example) = js ''print(1)''"
proof (intro conjI impI)
  assume cur: "currentSection st \<in> {Some Script, Some Tests, Some Dockerfile, Some Cicd}"
    and "\<not> matches_marker (trim line)"
  then have nm: "\<not> str_includes (trim line) m_summary"
    "\<not> str_includes (trim line) m_assumptions" "\<not> str_includes (trim line) m_script"
    "\<not> str_includes (trim line) m_tests" "\<not> str_includes (trim line) m_dockerfile"
    "\<not> str_includes (trim line) m_cicd" "\<not> str_includes (trim line) m_failures"
    "\<not> str_includes (trim line) m_metrics" "\<not> str_includes (trim line) m_usage"
    by (simp_all add: matches_marker_def before_metrics_def)
  from cur consider "currentSection st = Some Script" | "currentSection st = Some Tests"
    | "currentSection st = Some Dockerfile" | "currentSection st = Some Cicd"
    by blast
  then show "step st line =
        (if startsWith (trim line) fence then st\<lparr>inCodeBlock := \<not> inCodeBlock st\<rparr>
         else if currentSection st = Some Script then
           st\<lparr>sections := (sections st)\<lparr>script := script (sections st) @ line @ [0x0A]\<rparr>\<rparr>
         else if currentSection st = Some Tests then
           st\<lparr>sections := (sections st)\<lparr>tests := tests (sections st) @ line @ [0x0A]\<rparr>\<rparr>
         else if currentSection st = Some Dockerfile then
           st\<lparr>sections := (sections st)\<lparr>dockerfile :=
             dockerfile (sections st) @ line @ [0x0A]\<rparr>\<rparr>
         else
           st\<lparr>sections := (sections st)\<lparr>cicd := cicd (sections st) @ line @ [0x0A]\<rparr>\<rparr>)"
  proof cases
    case 1
    then show ?thesis by (simp add: step_def Let_def nm fence_def)
  next
    case 2
    then show ?thesis by (simp add: step_def Let_def nm fence_def)
  next
    case 3
    then show ?thesis by (simp add: step_def Let_def nm fence_def)
  next
    case 4
    then show ?thesis by (simp add: step_def Let_def nm fence_def)
  qed
next
  show "script (parseModelResponse script_example) = js ''print(1)''"
    by code_simp
qed

theorem code_line_appended_witness:
  "currentSection script_state \<in> {Some Script, Some Tests, Some Dockerfile, Some Cicd} \<and>
   \<not> matches_marker (trim (js ''  print(1)'')) \<and>
   step script_state (js ''  print(1)'') =
     script_state\<lparr>sections := initial_sections\<lparr>script := js ''  print(1)'' @ [0x0A]\<rparr>\<rparr> \<and>
   \<not> matches_marker (trim fence_code_line) \<and>
   step script_state fence_code_line = script_state\<lparr>inCodeBlock := True\<rparr>"
proof -
  have h1: "currentSection script_state \<in> {Some Script, Some Tests, Some Dockerfile, Some Cicd}"
    by (simp add: script_state_def)
  have h2: "\<not> matches_marker (trim (js ''  print(1)''))"
    by code_simp
  have k2: "\<not> matches_marker (trim fence_code_line)"
    by code_simp
  note gen = code_line_appended[THEN conjunct1, rule_format]
  have c1: "step script_state (js ''  print(1)'') =
     script_state\<lparr>sections := initial_sections\<lparr>script := js ''  print(1)'' @ [0x0A]\<rparr>\<rparr>"
    unfolding gen[OF h1 h2] by code_simp
  have c2: "step script_state fence_code_line = script_state\<lparr>inCodeBlock := True\<rparr>"
    unfolding gen[OF h1 k2] by code_simp
  from h1 h2 c1 k2 c2 show ?thesis by (intro conjI)
qed

section \<open>Sections that never start\<close>

text \<open>
  Claim C2. The parser is total: it uses no operation that can throw (every index is
  guarded by a length test, and \<^verbatim>\<open>split\<close>, \<^verbatim>\<open>trim\<close>, \<^verbatim>\<open>includes\<close>, \<^verbatim>\<open>replace\<close> and
  \<^verbatim>\<open>parseInt\<close> accept every string), so it is a function from texts to records. For
  every input, a section whose marker occurs nowhere in the text is left at its initial
  value: the empty string, the empty list, or the metrics 0, 0, 0.
\<close>

theorem unmatched_sections_keep_defaults:
  "(\<not> str_includes text m_summary \<longrightarrow> summary (parseModelResponse text) = []) \<and>
   (\<not> str_includes text m_assumptions \<longrightarrow> assumptions (parseModelResponse text) = []) \<and>
   (\<not> str_includes text m_script \<longrightarrow> script (parseModelResponse text) = []) \<and>
   (\<not> str_includes text m_tests \<longrightarrow> tests (parseModelResponse text) = []) \<and>
   (\<not> str_includes text m_dockerfile \<longrightarrow> dockerfile (parseModelResponse text) = []) \<and>
   (\<not> str_includes text m_cicd \<longrightarrow> cicd (parseModelResponse text) = []) \<and>
   (\<not> str_includes text m_failures \<longrightarrow> failureSimulations (parseModelResponse text) = []) \<and>
   (\<not> str_includes text m_metrics \<longrightarrow> metrics (parseModelResponse text) = zero_metrics) \<and>
   (\<not> str_includes text m_usage \<longrightarrow> usage (parseModelResponse text) = [])"
proof (intro conjI impI)
  assume "\<not> str_includes text m_summary"
  then show "summary (parseModelResponse text) = []"
    by (simp add: parseModelResponse_def finish_fields run_summary_unmatched)
next
  assume "\<not> str_includes text m_assumptions"
  then show "assumptions (parseModelResponse text) = []"
    by (simp add: parseModelResponse_def finish_fields run_assumptions_unmatched)
next
  assume "\<not> str_includes text m_script"
  then show "script (parseModelResponse text) = []"
    by (rule script_unmatched)
next
  assume "\<not> str_includes text m_tests"
  then show "tests (parseModelResponse text) = []"
    by (simp add: parseModelResponse_def tests_finish_empty run_tests_unmatched)
next
  assume "\<not> str_includes text m_dockerfile"
  then show "dockerfile (parseModelResponse text) = []"
    by (simp add: parseModelResponse_def finish_fields run_dockerfile_unmatched trim_Nil)
next
  assume "\<not> str_includes text m_cicd"
  then show "cicd (parseModelResponse text) = []"
    by (simp add: parseModelResponse_def finish_fields run_cicd_unmatched trim_Nil)
next
  assume "\<not> str_includes text m_failures"
  then show "failureSimulations (parseModelResponse text) = []"
    by (simp add: parseModelResponse_def finish_fields run_failures_unmatched)
next
  assume "\<not> str_includes text m_metrics"
  then have "\<forall>l\<in>set (split 0x0A text).
          str_includes (trim l) m_metrics \<longrightarrow> length (split 0x7C (trim l)) < 4"
    using line_includes_text by blast
  then show "metrics (parseModelResponse text) = zero_metrics"
    by (simp add: parseModelResponse_def finish_fields run_metrics_kept)
next
  assume "\<not> str_includes text m_usage"
  then show "usage (parseModelResponse text) = []"
    by (simp add: parseModelResponse_def finish_fields run_usage_unmatched)
qed

theorem unmatched_sections_keep_defaults_witness:
  "\<not> str_includes script_example m_summary \<and>
   \<not> str_includes script_example m_assumptions \<and>
   str_includes script_example m_script \<and>
   \<not> str_includes script_example m_tests \<and>
   \<not> str_includes script_example m_dockerfile \<and>
   \<not> str_includes script_example m_cicd \<and>
   \<not> str_includes script_example m_failures \<and>
   \<not> str_includes script_example m_metrics \<and>
   \<not> str_includes script_example m_usage \<and>
   parseModelResponse script_example = initial_sections\<lparr>script := js ''print(1)''\<rparr>"
proof -
  have h: "\<not> str_includes script_example m_summary"
    "\<not> str_includes script_example m_assumptions"
    "\<not> str_includes script_example m_tests"
    "\<not> str_includes script_example m_dockerfile"
    "\<not> str_includes script_example m_cicd"
    "\<not> str_includes script_example m_failures"
    "\<not> str_includes script_example m_metrics"
    "\<not> str_includes script_example m_usage"
    by code_simp+
  have s: "str_includes script_example m_script"
    by code_simp
  have sc: "script (parseModelResponse script_example) = js ''print(1)''"
    by code_simp
  have "parseModelResponse script_example = initial_sections\<lparr>script := js ''print(1)''\<rparr>"
    using unmatched_sections_keep_defaults[of script_example] h sc
    by (intro ScriptResponse.equality) (simp_all add: initial_sections_def zero_metrics_def)
  with h s show ?thesis by (intro conjI)
qed

section \<open>Parsing the extracted script again\<close>

text \<open>
  Claim C6. For every input text, the script field that the parser extracts contains
  none of the nine markers, and given to the parser again as a fresh input it yields an
  empty script field: on the second pass the script section never starts.
\<close>

theorem script_reparse_empty:
  "\<not> matches_marker (script (parseModelResponse text)) \<and>
   script (parseModelResponse (script (parseModelResponse text))) = []"
proof -
  let ?buf = "script (sections (run_lines text))"
  have "\<not> matches_marker ?buf"
    using run_script_clean[of "text"] by (simp add: buffer_clean_def)
  then have "\<not> matches_marker (trim ?buf)"
    by (simp add: matches_marker_trim)
  then have clean: "\<not> matches_marker (script (parseModelResponse text))"
    by (simp add: parseModelResponse_def finish_fields)
  then have "\<not> str_includes (script (parseModelResponse text)) m_script"
    by (simp add: matches_marker_def before_metrics_def)
  then have "script (parseModelResponse (script (parseModelResponse text))) = []"
    by (rule script_unmatched)
  with clean show ?thesis by simp
qed

theorem script_reparse_empty_witness:
  "script (parseModelResponse script_example) = js ''print(1)'' \<and>
   script (parseModelResponse (script (parseModelResponse script_example))) = []"
proof -
  have "script (parseModelResponse script_example) = js ''print(1)''"
    by code_simp
  then show ?thesis using script_reparse_empty[of script_example, THEN conjunct2] by simp
qed

end
